theory Spec2Isabelle
  imports Main "HOL-Library.Word" "HOL-Library.Sublist"
begin

unbundle bit_operations_syntax

section \<open>Values and snapshots\<close>

text \<open>
  The monitor of \<^verbatim>\<open>src/app/clipboardmonitor.cpp\<close> works on Qt values. A byte array is a
  list of bytes, a \<^verbatim>\<open>QString\<close> a list of characters. Of \<^verbatim>\<open>QVariant\<close> the monitor
  creates and inspects four kinds of value: the default-constructed (invalid) variant that
  \<^verbatim>\<open>QMap::value\<close> returns for a missing key, byte arrays (clipboard content), strings
  (the mode name it inserts) and string lists (the \<^verbatim>\<open>formats\<close> setting). Two
  variants are equal when they are of the same kind and hold the same value; the values
  \<^verbatim>\<open>hasSameData\<close> compares under a format without the metadata prefix are the byte
  arrays the clipboard reports, or the invalid variant of a missing key.
\<close>

type_synonym QByteArray = "8 word list"
type_synonym QString = string

datatype QVariant =
    VInvalid
  | VByteArray QByteArray
  | VString QString
  | VStringList "QString list"

definition toUtf8 :: "QString \<Rightarrow> QByteArray" where
  "toUtf8 s = map of_char s"

fun toByteArray :: "QVariant \<Rightarrow> QByteArray" where
  "toByteArray VInvalid = []"
| "toByteArray (VByteArray b) = b"
| "toByteArray (VString s) = toUtf8 s"
| "toByteArray (VStringList l) = []"

fun toStringList :: "QVariant \<Rightarrow> QString list" where
  "toStringList (VStringList l) = l"
| "toStringList (VString s) = [s]"
| "toStringList _ = []"

text \<open>
  A \<^verbatim>\<open>QVariantMap\<close> is an association list from format names to values. \<^verbatim>\<open>contains\<close>,
  \<^verbatim>\<open>value\<close> (with the invalid variant for a missing key; the const \<^verbatim>\<open>operator[]\<close> is
  the same function) and \<^verbatim>\<open>insert\<close> (which replaces the value of a key that is present)
  are the operations the monitor uses. Qt keeps the keys sorted; the order of iteration
  decides only which of several failing entries makes \<^verbatim>\<open>hasSameData\<close> return first.
\<close>

type_synonym QVariantMap = "(QString \<times> QVariant) list"

definition keys :: "QVariantMap \<Rightarrow> QString set" where
  "keys m = fst ` set m"

definition contains :: "QVariantMap \<Rightarrow> QString \<Rightarrow> bool" where
  "contains m k = (map_of m k \<noteq> None)"

definition value_of :: "QVariantMap \<Rightarrow> QString \<Rightarrow> QVariant" where
  "value_of m k = (case map_of m k of None \<Rightarrow> VInvalid | Some v \<Rightarrow> v)"

fun insert_qmap :: "QString \<Rightarrow> QVariant \<Rightarrow> QVariantMap \<Rightarrow> QVariantMap" where
  "insert_qmap k v [] = [(k, v)]"
| "insert_qmap k v ((k', v') # m) =
     (if k' = k then (k, v) # m else (k', v') # insert_qmap k v m)"

definition startsWith :: "QString \<Rightarrow> QString \<Rightarrow> bool" where
  "startsWith s p = prefix p s"

section \<open>The change-detection check\<close>

text \<open>
  \<^verbatim>\<open>hasSameData\<close> (clipboardmonitor.cpp, lines 34 to 56) iterates twice, each iteration returning
  false at the first offending entry. The reserved prefix \<^verbatim>\<open>COPYQ_MIME_PREFIX\<close> comes from
  \<^verbatim>\<open>common/mimetypes.h\<close> and is a parameter here.
\<close>

fun lastData_loop :: "QString \<Rightarrow> QVariantMap \<Rightarrow> QVariantMap \<Rightarrow> bool" where
  "lastData_loop pre data [] = True"
| "lastData_loop pre data ((format, v) # it) =
     (if \<not> startsWith format pre \<and> \<not> contains data format then False
      else lastData_loop pre data it)"

fun data_loop :: "QString \<Rightarrow> QVariantMap \<Rightarrow> QVariantMap \<Rightarrow> QVariantMap \<Rightarrow> bool" where
  "data_loop pre data lastData [] = True"
| "data_loop pre data lastData ((format, v) # it) =
     (if \<not> startsWith format pre
         \<and> toByteArray (value_of data format) \<noteq> []
         \<and> value_of data format \<noteq> value_of lastData format
      then False
      else data_loop pre data lastData it)"

definition hasSameData :: "QString \<Rightarrow> QVariantMap \<Rightarrow> QVariantMap \<Rightarrow> bool" where
  "hasSameData pre data lastData =
     (if \<not> lastData_loop pre data lastData then False
      else if \<not> data_loop pre data lastData data then False
      else True)"

section \<open>The monitor\<close>

text \<open>
  \<^verbatim>\<open>PlatformClipboard::Mode\<close>: the monitor names the clipboard and the selection, and calls
  any other mode the find buffer.
\<close>

datatype Mode = Clipboard | Selection | FindBuffer

datatype LogLevel = LogError | LogDebug

datatype LogMessage =
    IgnoringUnchanged QString
  | ModeChanged QString
  | LoadingConfiguration
  | ConfigurationLine QString QString
  | Configured
  | ReceivedChangeRequest QString nat
  | UnknownMessageCode int

text \<open>
  What the monitor does to the outside, in order: messages sent over its socket, calls of
  the clipboard's \<^verbatim>\<open>setData\<close> and \<^verbatim>\<open>loadSettings\<close>, log lines and the process exit.
\<close>

datatype Effect =
    SendMessage QByteArray int
  | SetData Mode QVariantMap
  | LoadSettings QVariantMap
  | Log LogLevel LogMessage
  | Exit int

datatype Signal = SigClipboardChanged | SigMessageReceived | SigDisconnected | SigConnectionFailed
datatype Slot = SlotOnClipboardChanged | SlotOnMessageReceived | SlotOnDisconnected | SlotOnConnectionFailed

text \<open>
  The headers and helpers the monitor includes are parameters: the constants of
  \<^verbatim>\<open>common/mimetypes.h\<close>, the serialisers of \<^verbatim>\<open>item/serialize.h\<close>, the \<^verbatim>\<open>QDataStream\<close>
  reader of a settings map (\<^verbatim>\<open>readSettings message\<close> is what \<^verbatim>\<open>stream >> settings\<close> leaves in
  \<^verbatim>\<open>settings\<close>, together with whether the stream's status is still Ok) and the log level.
\<close>

record Env =
  COPYQ_MIME_PREFIX :: QString
  mimeClipboardMode :: QString
  mimeOwner :: QString
  mimeWindowTitle :: QString
  serializeData :: "QVariantMap \<Rightarrow> QByteArray"
  deserializeData :: "QByteArray \<Rightarrow> QVariantMap"
  readSettings :: "QByteArray \<Rightarrow> bool \<times> QVariantMap"
  hasLogLevel :: "LogLevel \<Rightarrow> bool"

text \<open>
  Modelled from the spec: \<^verbatim>\<open>common/monitormessagecode.h\<close> is not among the sources. The
  message code is an application-defined enumeration; the enumerators
  clipboardmonitor.cpp uses are numbered here in the order the spec lists them.
\<close>

definition MonitorPing :: int where "MonitorPing = 0"
definition MonitorPong :: int where "MonitorPong = 1"
definition MonitorSettings :: int where "MonitorSettings = 2"
definition MonitorChangeClipboard :: int where "MonitorChangeClipboard = 3"
definition MonitorChangeSelection :: int where "MonitorChangeSelection = 4"
definition MonitorClipboardChanged :: int where "MonitorClipboardChanged = 5"

text \<open>
  The members of \<^verbatim>\<open>ClipboardMonitor\<close>. \<^verbatim>\<open>m_lastData[mode]\<close> creates an empty snapshot for
  a mode with none, so the stored snapshots are a total function that starts empty.
  \<^verbatim>\<open>m_timerSetNewClipboard\<close> is a single-shot timer: only whether it is active matters.
  \<^verbatim>\<open>connections\<close> are the signal connections of the object, \<^verbatim>\<open>exited\<close> the status of
  \<^verbatim>\<open>exit\<close> once it was called.
\<close>

record ClipboardMonitor =
  m_formats :: "QString list"
  m_newData :: "Mode \<rightharpoonup> QVariantMap"
  m_lastData :: "Mode \<Rightarrow> QVariantMap"
  m_timerSetNewClipboard :: bool
  connections :: "(Signal \<times> Slot) list"
  effects :: "Effect list"
  exited :: "int option"

definition emit :: "Effect \<Rightarrow> ClipboardMonitor \<Rightarrow> ClipboardMonitor" where
  "emit e s = s\<lparr>effects := effects s @ [e]\<rparr>"

definition log :: "LogMessage \<Rightarrow> LogLevel \<Rightarrow> ClipboardMonitor \<Rightarrow> ClipboardMonitor" where
  "log msg level s = emit (Log level msg) s"

definition COPYQ_LOG :: "Env \<Rightarrow> LogMessage \<Rightarrow> ClipboardMonitor \<Rightarrow> ClipboardMonitor" where
  "COPYQ_LOG env msg s = (if hasLogLevel env LogDebug then log msg LogDebug s else s)"

definition sendMessage :: "QByteArray \<Rightarrow> int \<Rightarrow> ClipboardMonitor \<Rightarrow> ClipboardMonitor" where
  "sendMessage message messageCode s = emit (SendMessage message messageCode) s"

text \<open>
  \<^verbatim>\<open>QObject::connect\<close>: with \<^verbatim>\<open>Qt::UniqueConnection\<close> a connection that exists already is
  not made again.
\<close>

definition connect :: "Signal \<times> Slot \<Rightarrow> bool \<Rightarrow> ClipboardMonitor \<Rightarrow> ClipboardMonitor" where
  "connect c uniqueConnection s =
     (if uniqueConnection \<and> c \<in> set (connections s) then s
      else s\<lparr>connections := connections s @ [c]\<rparr>)"

text \<open>
  The constructor: \<^verbatim>\<open>startClientSocket\<close> (client.cpp) connects the three socket signals,
  the timer is initialised and not started.
\<close>

definition startClientSocket :: "ClipboardMonitor \<Rightarrow> ClipboardMonitor" where
  "startClientSocket s =
     connect (SigConnectionFailed, SlotOnConnectionFailed) False
       (connect (SigDisconnected, SlotOnDisconnected) False
         (connect (SigMessageReceived, SlotOnMessageReceived) False s))"

definition ClipboardMonitor_init :: ClipboardMonitor where
  "ClipboardMonitor_init =
     startClientSocket
       \<lparr>m_formats = [], m_newData = Map.empty, m_lastData = (\<lambda>mode. []),
        m_timerSetNewClipboard = False, connections = [], effects = [], exited = None\<rparr>"

text \<open>
  \<^verbatim>\<open>onClipboardChanged\<close> (lines 78 to 109). \<^verbatim>\<open>clipboard\<close> is the capability's \<^verbatim>\<open>data\<close>
  function at the time of the call, \<^verbatim>\<open>currentWindow\<close> the title of the current window,
  if the platform reports one.
\<close>

definition modeLogName :: "Mode \<Rightarrow> QString \<Rightarrow> QString \<Rightarrow> QString" where
  "modeLogName mode a b = (if mode = Clipboard then a else b)"

definition onClipboardChanged ::
  "Env \<Rightarrow> Mode \<Rightarrow> (Mode \<Rightarrow> QString list \<Rightarrow> QVariantMap) \<Rightarrow> QString option
     \<Rightarrow> ClipboardMonitor \<Rightarrow> ClipboardMonitor" where
  "onClipboardChanged env mode clipboard currentWindow s =
     (let data = clipboard mode (m_formats s);
          lastData = m_lastData s mode
      in if hasSameData (COPYQ_MIME_PREFIX env) data lastData
         then COPYQ_LOG env (IgnoringUnchanged (modeLogName mode ''clipboard'' ''selection'')) s
         else
           let s1 = COPYQ_LOG env (ModeChanged (modeLogName mode ''Clipboard'' ''Selection'')) s;
               data1 = (if mode \<noteq> Clipboard
                        then insert_qmap (mimeClipboardMode env)
                               (VString (if mode = Selection then ''selection'' else ''find buffer''))
                               data
                        else data);
               data2 = (if \<not> contains data1 (mimeOwner env) \<and> \<not> contains data1 (mimeWindowTitle env)
                        then (case currentWindow of
                                None \<Rightarrow> data1
                              | Some title \<Rightarrow>
                                  insert_qmap (mimeWindowTitle env) (VByteArray (toUtf8 title)) data1)
                        else data1);
               s2 = sendMessage (serializeData env data2) MonitorClipboardChanged s1
           in s2\<lparr>m_lastData := (m_lastData s2)(mode := data2)\<rparr>)"

text \<open>
  \<^verbatim>\<open>onMessageReceived\<close> (lines 111 to 159). The settings branch logs one line per setting
  at debug level, with the value rendered by \<^verbatim>\<open>toStringList().join(",")\<close> or \<^verbatim>\<open>toString()\<close>.
\<close>

fun canConvertStringList :: "QVariant \<Rightarrow> bool" where
  "canConvertStringList (VStringList l) = True"
| "canConvertStringList (VString s) = True"
| "canConvertStringList _ = False"

fun toString :: "QVariant \<Rightarrow> QString" where
  "toString (VString s) = s"
| "toString (VByteArray b) = map (\<lambda>x. char_of (unat x)) b"
| "toString (VStringList l) = (case l of [x] \<Rightarrow> x | _ \<Rightarrow> [])"
| "toString VInvalid = []"

fun join :: "QString list \<Rightarrow> QString \<Rightarrow> QString" where
  "join [] sep = []"
| "join [x] sep = x"
| "join (x # y # l) sep = x @ sep @ join (y # l) sep"

definition settingStr :: "QVariant \<Rightarrow> QString" where
  "settingStr val = (if canConvertStringList val then join (toStringList val) '','' else toString val)"

definition logConfiguration :: "Env \<Rightarrow> QVariantMap \<Rightarrow> ClipboardMonitor \<Rightarrow> ClipboardMonitor" where
  "logConfiguration env settings s =
     (if hasLogLevel env LogDebug
      then foldl (\<lambda>s' (key, val). COPYQ_LOG env (ConfigurationLine key (settingStr val)) s')
             (COPYQ_LOG env LoadingConfiguration s) settings
      else s)"

definition onMessageReceived ::
  "Env \<Rightarrow> QByteArray \<Rightarrow> int \<Rightarrow> ClipboardMonitor \<Rightarrow> ClipboardMonitor" where
  "onMessageReceived env message messageCode s =
     (if messageCode = MonitorPing then sendMessage [] MonitorPong s
      else if messageCode = MonitorSettings then
        let settings = snd (readSettings env message);
            s1 = logConfiguration env settings s;
            s2 = (if contains settings ''formats''
                  then s1\<lparr>m_formats := toStringList (value_of settings ''formats'')\<rparr>
                  else s1);
            s3 = connect (SigClipboardChanged, SlotOnClipboardChanged) True s2;
            s4 = emit (LoadSettings settings) s3
        in COPYQ_LOG env Configured s4
      else if messageCode = MonitorChangeClipboard \<or> messageCode = MonitorChangeSelection then
        let s1 = COPYQ_LOG env
                   (ReceivedChangeRequest
                      (if messageCode = MonitorChangeClipboard then ''clipboard'' else ''selection'')
                      (length message)) s;
            data = deserializeData env message;
            s2 = (if messageCode = MonitorChangeClipboard
                  then s1\<lparr>m_newData := (m_newData s1)(Clipboard \<mapsto> data)\<rparr> else s1);
            s3 = (if messageCode = MonitorChangeSelection
                  then s2\<lparr>m_newData := (m_newData s2)(Selection \<mapsto> data)\<rparr> else s2)
        in s3\<lparr>m_timerSetNewClipboard := True\<rparr>
      else log (UnknownMessageCode messageCode) LogError s)"

definition onDisconnected :: "ClipboardMonitor \<Rightarrow> ClipboardMonitor" where
  "onDisconnected s = (emit (Exit 0) s)\<lparr>exited := Some 0\<rparr>"

definition onConnectionFailed :: "ClipboardMonitor \<Rightarrow> ClipboardMonitor" where
  "onConnectionFailed s = (emit (Exit 1) s)\<lparr>exited := Some 1\<rparr>"

text \<open>
  The flush (lines 171 to 184): \<^verbatim>\<open>setNewClipboard(mode)\<close> takes the pending snapshot of one
  mode out of \<^verbatim>\<open>m_newData\<close> and hands it to \<^verbatim>\<open>setData\<close>; \<^verbatim>\<open>setNewClipboard()\<close> does so
  for the clipboard and the selection unless the timer was started again.
\<close>

definition setNewClipboard_mode :: "Mode \<Rightarrow> ClipboardMonitor \<Rightarrow> ClipboardMonitor" where
  "setNewClipboard_mode mode s =
     (case m_newData s mode of
        None \<Rightarrow> s
      | Some data \<Rightarrow> emit (SetData mode data) (s\<lparr>m_newData := (m_newData s)(mode := None)\<rparr>))"

definition setNewClipboard :: "ClipboardMonitor \<Rightarrow> ClipboardMonitor" where
  "setNewClipboard s =
     (if m_timerSetNewClipboard s then s
      else setNewClipboard_mode Selection (setNewClipboard_mode Clipboard s))"

section \<open>The event loop\<close>

text \<open>
  Events reach the monitor one at a time. A signal runs its slot once for every connection
  between the two; the single-shot timer stops before its slot runs and fires only when it
  is active; after \<^verbatim>\<open>exit\<close> nothing runs.
\<close>

datatype Event =
    MessageReceived QByteArray int
  | ClipboardChanged Mode "Mode \<Rightarrow> QString list \<Rightarrow> QVariantMap" "QString option"
  | TimerTimeout
  | Disconnected
  | ConnectionFailed

definition deliveries :: "Signal \<Rightarrow> Slot \<Rightarrow> ClipboardMonitor \<Rightarrow> nat" where
  "deliveries sig slot s = count_list (connections s) (sig, slot)"

definition timerTimeout :: "ClipboardMonitor \<Rightarrow> ClipboardMonitor" where
  "timerTimeout s =
     (if m_timerSetNewClipboard s then setNewClipboard (s\<lparr>m_timerSetNewClipboard := False\<rparr>)
      else s)"

fun dispatch :: "Env \<Rightarrow> Event \<Rightarrow> ClipboardMonitor \<Rightarrow> ClipboardMonitor" where
  "dispatch env (MessageReceived message messageCode) s =
     (onMessageReceived env message messageCode
        ^^ deliveries SigMessageReceived SlotOnMessageReceived s) s"
| "dispatch env (ClipboardChanged mode clipboard currentWindow) s =
     (onClipboardChanged env mode clipboard currentWindow
        ^^ deliveries SigClipboardChanged SlotOnClipboardChanged s) s"
| "dispatch env TimerTimeout s = timerTimeout s"
| "dispatch env Disconnected s =
     (onDisconnected ^^ deliveries SigDisconnected SlotOnDisconnected s) s"
| "dispatch env ConnectionFailed s =
     (onConnectionFailed ^^ deliveries SigConnectionFailed SlotOnConnectionFailed s) s"

definition step :: "Env \<Rightarrow> ClipboardMonitor \<Rightarrow> Event \<Rightarrow> ClipboardMonitor" where
  "step env s ev = (if exited s \<noteq> None then s else dispatch env ev s)"

definition run :: "Env \<Rightarrow> ClipboardMonitor \<Rightarrow> Event list \<Rightarrow> ClipboardMonitor" where
  "run env s evs = foldl (step env) s evs"

text \<open>The observable parts of the effect trace.\<close>

fun isSendMessage :: "Effect \<Rightarrow> bool" where
  "isSendMessage (SendMessage message messageCode) = True"
| "isSendMessage _ = False"

fun isSetData :: "Effect \<Rightarrow> bool" where
  "isSetData (SetData mode data) = True"
| "isSetData _ = False"

definition sentMessages :: "ClipboardMonitor \<Rightarrow> Effect list" where
  "sentMessages s = filter isSendMessage (effects s)"

text \<open>The effects a handler added, and the snapshots handed to \<^verbatim>\<open>setData\<close> for one mode.\<close>

definition newEffects :: "ClipboardMonitor \<Rightarrow> ClipboardMonitor \<Rightarrow> Effect list" where
  "newEffects s s' = drop (length (effects s)) (effects s')"

fun setDataArg :: "Mode \<Rightarrow> Effect \<Rightarrow> QVariantMap list" where
  "setDataArg mode (SetData m data) = (if m = mode then [data] else [])"
| "setDataArg mode _ = []"

definition setDataFor :: "Mode \<Rightarrow> Effect list \<Rightarrow> QVariantMap list" where
  "setDataFor mode effs = concat (map (setDataArg mode) effs)"

text \<open>A burst of messages handled one after the other, and the code that writes a mode.\<close>

definition processMessages ::
  "Env \<Rightarrow> ClipboardMonitor \<Rightarrow> (QByteArray \<times> int) list \<Rightarrow> ClipboardMonitor" where
  "processMessages env s msgs =
     foldl (\<lambda>s' (message, messageCode). onMessageReceived env message messageCode s') s msgs"

definition changeCode :: "Mode \<Rightarrow> int" where
  "changeCode mode = (if mode = Clipboard then MonitorChangeClipboard else MonitorChangeSelection)"

text \<open>
  What the flush hands to \<^verbatim>\<open>setData\<close>, and two properties of a monitor state: no write
  is pending for the find buffer, and the clipboard's change signal is connected at most
  once.
\<close>

definition flushEffects :: "ClipboardMonitor \<Rightarrow> Effect list" where
  "flushEffects s =
     (case m_newData s Clipboard of None \<Rightarrow> [] | Some data \<Rightarrow> [SetData Clipboard data])
     @ (case m_newData s Selection of None \<Rightarrow> [] | Some data \<Rightarrow> [SetData Selection data])"

definition pendingModesOk :: "ClipboardMonitor \<Rightarrow> bool" where
  "pendingModesOk s = (m_newData s FindBuffer = None)"

definition subscribedAtMostOnce :: "ClipboardMonitor \<Rightarrow> bool" where
  "subscribedAtMostOnce s = (deliveries SigClipboardChanged SlotOnClipboardChanged s \<le> 1)"

text \<open>A snapshot without its internal-metadata entries.\<close>

definition withoutMetadata :: "QString \<Rightarrow> QVariantMap \<Rightarrow> QVariantMap" where
  "withoutMetadata pre m = filter (\<lambda>(format, v). \<not> startsWith format pre) m"

section \<open>The framed transport\<close>

text \<open>
  Modelled from the spec: \<^verbatim>\<open>src/common/clientsocket.cpp\<close> is not among the sources; only
  the declaration of \<^verbatim>\<open>ClientSocket\<close> (clientsocket.h) is, with the members
  \<^verbatim>\<open>m_hasMessageLength\<close>, \<^verbatim>\<open>m_messageLength\<close> and \<^verbatim>\<open>m_message\<close> and the signals
  \<^verbatim>\<open>messageReceived\<close> and \<^verbatim>\<open>disconnected\<close>. Wire format and reassembly follow the
  specification: a message is a 4-byte unsigned length, a 32-bit signed code and the
  payload, the length counting code and payload; integers are big-endian, as in the
  specification's example (prefix 00000005, code 00000001, payload "A"). On arrival the
  bytes are appended to the buffer; once four bytes are there the length is decoded and
  remembered; once the buffer beyond the prefix holds that many bytes one message is split
  off, decoded and emitted, and the surplus starts the next message, which is looked at in
  the same way before the handler returns. A body too short to hold a code is a framing
  error: the buffer is discarded and the connection counts as disconnected.
\<close>

type_synonym Message = "32 word \<times> QByteArray"

definition writeUInt32 :: "32 word \<Rightarrow> QByteArray" where
  "writeUInt32 w = [ucast (drop_bit 24 w), ucast (drop_bit 16 w), ucast (drop_bit 8 w), ucast w]"

definition readUInt32 :: "QByteArray \<Rightarrow> 32 word" where
  "readUInt32 bs =
     (case bs of
        b0 # b1 # b2 # b3 # rest \<Rightarrow>
          push_bit 24 (ucast b0) OR push_bit 16 (ucast b1) OR push_bit 8 (ucast b2) OR ucast b3
      | _ \<Rightarrow> 0)"

definition serializeMessage :: "Message \<Rightarrow> QByteArray" where
  "serializeMessage m =
     (case m of (messageCode, payload) \<Rightarrow>
        writeUInt32 (of_nat (4 + length payload)) @ writeUInt32 messageCode @ payload)"

definition serializeMessages :: "Message list \<Rightarrow> QByteArray" where
  "serializeMessages ms = concat (map serializeMessage ms)"

datatype SocketSignal = messageReceived QByteArray "32 word" | disconnected

record ClientSocket =
  m_closed :: bool
  m_hasMessageLength :: bool
  m_messageLength :: "32 word"
  m_message :: QByteArray
  emitted :: "SocketSignal list"

definition ClientSocket_init :: ClientSocket where
  "ClientSocket_init =
     \<lparr>m_closed = False, m_hasMessageLength = False, m_messageLength = 0, m_message = [],
      emitted = []\<rparr>"

definition readMessageLength :: "ClientSocket \<Rightarrow> ClientSocket" where
  "readMessageLength s =
     (if \<not> m_hasMessageLength s \<and> 4 \<le> length (m_message s)
      then s\<lparr>m_hasMessageLength := True,
             m_messageLength := readUInt32 (take 4 (m_message s)),
             m_message := drop 4 (m_message s)\<rparr>
      else s)"

definition framingError :: "ClientSocket \<Rightarrow> ClientSocket" where
  "framingError s =
     s\<lparr>m_closed := True, m_hasMessageLength := False, m_message := [],
       emitted := emitted s @ [disconnected]\<rparr>"

definition splitMessage :: "ClientSocket \<Rightarrow> ClientSocket" where
  "splitMessage s =
     (let n = unat (m_messageLength s); msg = take n (m_message s)
      in s\<lparr>m_hasMessageLength := False,
            m_message := drop n (m_message s),
            emitted := emitted s @ [messageReceived (drop 4 msg) (readUInt32 (take 4 msg))]\<rparr>)"

function reassemble :: "ClientSocket \<Rightarrow> ClientSocket" where
  "reassemble s =
     (if \<not> m_hasMessageLength (readMessageLength s) then readMessageLength s
      else if length (m_message (readMessageLength s)) < unat (m_messageLength (readMessageLength s))
      then readMessageLength s
      else if unat (m_messageLength (readMessageLength s)) < 4
      then framingError (readMessageLength s)
      else reassemble (splitMessage (readMessageLength s)))"
  by pat_completeness auto
termination
  by (relation "measure (\<lambda>s. length (m_message s))")
     (auto simp: splitMessage_def readMessageLength_def Let_def split: if_splits)

declare reassemble.simps [simp del]

definition onReadyRead :: "ClientSocket \<Rightarrow> QByteArray \<Rightarrow> ClientSocket" where
  "onReadyRead s bytes =
     (if m_closed s then s else reassemble (s\<lparr>m_message := m_message s @ bytes\<rparr>))"

definition feed :: "ClientSocket \<Rightarrow> QByteArray list \<Rightarrow> ClientSocket" where
  "feed s chunks = foldl onReadyRead s chunks"

text \<open>
  The messages of a sequence that lie wholly within the first \<^verbatim>\<open>k\<close> bytes of its
  serialisation.
\<close>

fun completeMessages :: "nat \<Rightarrow> Message list \<Rightarrow> Message list" where
  "completeMessages k [] = []"
| "completeMessages k (m # ms) =
     (if length (serializeMessage m) \<le> k
      then m # completeMessages (k - length (serializeMessage m)) ms
      else [])"

definition signalOf :: "Message \<Rightarrow> SocketSignal" where
  "signalOf m = (case m of (messageCode, payload) \<Rightarrow> messageReceived payload messageCode)"

section \<open>An instance of the parameters\<close>

text \<open>
  The constants as CopyQ's \<^verbatim>\<open>mimetypes.h\<close> defines them, small stand-ins for the
  serialisers and for the settings reader (which fails, leaving the map empty, on a
  payload too short to hold the entry count), and logging at error level only.
\<close>

definition exampleEnv :: Env where
  "exampleEnv =
     \<lparr>COPYQ_MIME_PREFIX = ''application/x-copyq-'',
      mimeClipboardMode = ''application/x-copyq-clipboard-mode'',
      mimeOwner = ''application/x-copyq-owner'',
      mimeWindowTitle = ''application/x-copyq-owner-window-title'',
      serializeData = (\<lambda>m. concat (map (\<lambda>(k, v). toUtf8 k @ [0] @ toByteArray v @ [0]) m)),
      deserializeData = (\<lambda>b. [(''text/plain'', VByteArray b)]),
      readSettings = (\<lambda>b. if length b < 4 then (False, [])
                           else (True, [(''formats'', VStringList [''text/plain''])])),
      hasLogLevel = (\<lambda>level. level = LogError)\<rparr>"

section \<open>Properties of the change-detection check\<close>

lemma contains_keys: "contains m k \<longleftrightarrow> k \<in> keys m"
  by (simp add: contains_def keys_def map_of_eq_None_iff)

lemma lastData_loop_iff:
  "lastData_loop pre data it \<longleftrightarrow> (\<forall>format \<in> keys it. \<not> startsWith format pre \<longrightarrow> contains data format)"
  by (induction pre data it rule: lastData_loop.induct) (auto simp: keys_def)

lemma data_loop_iff:
  "data_loop pre data lastData it \<longleftrightarrow>
     (\<forall>format \<in> keys it. \<not> startsWith format pre \<and> toByteArray (value_of data format) \<noteq> []
        \<longrightarrow> value_of data format = value_of lastData format)"
  by (induction pre data lastData it rule: data_loop.induct) (auto simp: keys_def)

lemma hasSameData_conv:
  "hasSameData pre data lastData \<longleftrightarrow>
     (\<forall>format \<in> keys lastData. \<not> startsWith format pre \<longrightarrow> contains data format) \<and>
     (\<forall>format \<in> keys data. \<not> startsWith format pre \<and> toByteArray (value_of data format) \<noteq> []
        \<longrightarrow> value_of data format = value_of lastData format)"
  by (auto simp: hasSameData_def lastData_loop_iff data_loop_iff)


lemma map_of_withoutMetadata:
  "map_of (withoutMetadata pre m) k = (if startsWith k pre then None else map_of m k)"
  by (induction m) (auto simp: withoutMetadata_def)

lemma keys_withoutMetadata: "keys (withoutMetadata pre m) = {k \<in> keys m. \<not> startsWith k pre}"
  by (auto simp: withoutMetadata_def keys_def)

lemma hasSameData_withoutMetadata:
  "hasSameData pre (withoutMetadata pre data) (withoutMetadata pre lastData) = hasSameData pre data lastData"
  by (auto simp: hasSameData_conv keys_withoutMetadata contains_def value_of_def map_of_withoutMetadata)

lemma effects_COPYQ_LOG:
  "sentMessages (COPYQ_LOG env msg s) = sentMessages s"
  "m_lastData (COPYQ_LOG env msg s) = m_lastData s"
  "m_newData (COPYQ_LOG env msg s) = m_newData s"
  "m_formats (COPYQ_LOG env msg s) = m_formats s"
  "connections (COPYQ_LOG env msg s) = connections s"
  "m_timerSetNewClipboard (COPYQ_LOG env msg s) = m_timerSetNewClipboard s"
  "exited (COPYQ_LOG env msg s) = exited s"
  by (simp_all add: COPYQ_LOG_def log_def emit_def sentMessages_def)

lemma onClipboardChanged_same:
  assumes "hasSameData (COPYQ_MIME_PREFIX env) (clipboard mode (m_formats s)) (m_lastData s mode)"
  shows "sentMessages (onClipboardChanged env mode clipboard w s) = sentMessages s"
    and "m_lastData (onClipboardChanged env mode clipboard w s) = m_lastData s"
  using assms by (simp_all add: onClipboardChanged_def effects_COPYQ_LOG)

lemma onClipboardChanged_differs:
  assumes "\<not> hasSameData (COPYQ_MIME_PREFIX env) (clipboard mode (m_formats s)) (m_lastData s mode)"
  shows "\<exists>payload. sentMessages (onClipboardChanged env mode clipboard w s)
           = sentMessages s @ [SendMessage payload MonitorClipboardChanged]"
  using assms
  by (simp add: onClipboardChanged_def Let_def sendMessage_def emit_def sentMessages_def
      COPYQ_LOG_def log_def)

lemma keys_insert_qmap: "keys (insert_qmap k v m) = insert k (keys m)"
  by (induction k v m rule: insert_qmap.induct) (auto simp: keys_def)

lemma map_of_insert_qmap: "map_of (insert_qmap k v m) = (map_of m)(k \<mapsto> v)"
  by (induction k v m rule: insert_qmap.induct) auto

lemma value_of_insert_qmap: "value_of (insert_qmap k v m) f = (if f = k then v else value_of m f)"
  by (simp add: value_of_def map_of_insert_qmap)

lemma hasSameData_refl: "hasSameData pre data data"
  by (simp add: hasSameData_conv contains_keys)

lemma hasSameData_insert_metadata:
  "startsWith k pre \<Longrightarrow> hasSameData pre data (insert_qmap k v lastData) = hasSameData pre data lastData"
  by (auto simp: hasSameData_conv keys_insert_qmap value_of_insert_qmap)

lemma init_simps:
  "m_formats ClipboardMonitor_init = []"
  "m_newData ClipboardMonitor_init = Map.empty"
  "m_lastData ClipboardMonitor_init = (\<lambda>mode. [])"
  "m_timerSetNewClipboard ClipboardMonitor_init = False"
  "connections ClipboardMonitor_init =
     [(SigMessageReceived, SlotOnMessageReceived), (SigDisconnected, SlotOnDisconnected),
      (SigConnectionFailed, SlotOnConnectionFailed)]"
  "effects ClipboardMonitor_init = []"
  "exited ClipboardMonitor_init = None"
  by (simp_all add: ClipboardMonitor_init_def startClientSocket_def connect_def)

text \<open>
  Claim C1. A newly observed snapshot \<^verbatim>\<open>data\<close> is judged a duplicate of \<^verbatim>\<open>lastData\<close> exactly
  when every format of \<^verbatim>\<open>lastData\<close> without the metadata prefix is a key of \<^verbatim>\<open>data\<close> and
  every format of \<^verbatim>\<open>data\<close> without the prefix and with a non-empty value has the same
  value in \<^verbatim>\<open>lastData\<close>. Entries with the prefix never affect the verdict: it is the same
  with them removed from both snapshots. \<^verbatim>\<open>onClipboardChanged\<close> sends no message exactly
  when the verdict is "duplicate".
\<close>

theorem hasSameData_iff:
  "(hasSameData pre data lastData \<longleftrightarrow>
     (\<forall>format \<in> keys lastData. \<not> startsWith format pre \<longrightarrow> contains data format) \<and>
     (\<forall>format \<in> keys data. \<not> startsWith format pre \<and> toByteArray (value_of data format) \<noteq> []
        \<longrightarrow> value_of data format = value_of lastData format))
   \<and> hasSameData pre (withoutMetadata pre data) (withoutMetadata pre lastData) = hasSameData pre data lastData
   \<and> (sentMessages (onClipboardChanged env mode clipboard w s) = sentMessages s
        \<longleftrightarrow> hasSameData (COPYQ_MIME_PREFIX env) (clipboard mode (m_formats s)) (m_lastData s mode))"
proof (intro conjI)
  show "sentMessages (onClipboardChanged env mode clipboard w s) = sentMessages s
        \<longleftrightarrow> hasSameData (COPYQ_MIME_PREFIX env) (clipboard mode (m_formats s)) (m_lastData s mode)"
    using onClipboardChanged_same(1) onClipboardChanged_differs by (metis append_self_conv not_Cons_self2)
qed (simp_all add: hasSameData_conv [symmetric] hasSameData_withoutMetadata)

theorem hasSameData_iff_witness:
  "hasSameData ''application/x-copyq-''
      [(''application/x-copyq-note'', VByteArray [110]), (''text/plain'', VByteArray [104, 105])]
      [(''text/plain'', VByteArray [104, 105])]
   \<and> \<not> hasSameData ''application/x-copyq-''
      [(''text/plain'', VByteArray [104, 111])]
      [(''text/plain'', VByteArray [104, 105])]
   \<and> \<not> hasSameData ''application/x-copyq-''
      [(''text/plain'', VByteArray [104, 105])]
      [(''text/html'', VByteArray [60]), (''text/plain'', VByteArray [104, 105])]"
  using hasSameData_iff [of "''application/x-copyq-''"
      "[(''application/x-copyq-note'', VByteArray [110]), (''text/plain'', VByteArray [104, 105])]"
      "[(''text/plain'', VByteArray [104, 105])]"]
    hasSameData_iff [of "''application/x-copyq-''"
      "[(''text/plain'', VByteArray [104, 111])]"
      "[(''text/plain'', VByteArray [104, 105])]"]
    hasSameData_iff [of "''application/x-copyq-''"
      "[(''text/plain'', VByteArray [104, 105])]"
      "[(''text/html'', VByteArray [60]), (''text/plain'', VByteArray [104, 105])]"]
  by (simp add: keys_def contains_def value_of_def startsWith_def)

text \<open>
  Claim C2. When a snapshot is accepted, what is stored is the snapshot after tagging (the
  mode name and the window title may have been inserted). A second change event that
  delivers the same snapshot for the mode is then judged a duplicate: nothing is sent and
  the stored snapshot stays. The two inserted format names are constants of
  \<^verbatim>\<open>mimetypes.h\<close>; they carry the metadata prefix.
\<close>

theorem dedup_idempotent:
  assumes "startsWith (mimeClipboardMode env) (COPYQ_MIME_PREFIX env)"
      and "startsWith (mimeWindowTitle env) (COPYQ_MIME_PREFIX env)"
      and "\<not> hasSameData (COPYQ_MIME_PREFIX env) (clipboard mode (m_formats s)) (m_lastData s mode)"
      and "s1 = onClipboardChanged env mode clipboard w s"
      and "clipboard' mode (m_formats s1) = clipboard mode (m_formats s)"
  shows "hasSameData (COPYQ_MIME_PREFIX env) (clipboard' mode (m_formats s1)) (m_lastData s1 mode)
       \<and> sentMessages (onClipboardChanged env mode clipboard' w' s1) = sentMessages s1
       \<and> m_lastData (onClipboardChanged env mode clipboard' w' s1) = m_lastData s1"
proof -
  let ?pre = "COPYQ_MIME_PREFIX env"
  let ?data = "clipboard mode (m_formats s)"
  have stored: "m_lastData s1 mode = ?data
      \<or> (\<exists>v. m_lastData s1 mode = insert_qmap (mimeClipboardMode env) v ?data)
      \<or> (\<exists>t. m_lastData s1 mode = insert_qmap (mimeWindowTitle env) t ?data)
      \<or> (\<exists>v t. m_lastData s1 mode
            = insert_qmap (mimeWindowTitle env) t (insert_qmap (mimeClipboardMode env) v ?data))"
    using assms(3,4)
    by (auto simp: onClipboardChanged_def Let_def sendMessage_def emit_def COPYQ_LOG_def log_def
        split: option.splits)
  have "hasSameData ?pre ?data (m_lastData s1 mode)"
    using stored assms(1,2) by (auto simp: hasSameData_insert_metadata hasSameData_refl)
  then have dup: "hasSameData ?pre (clipboard' mode (m_formats s1)) (m_lastData s1 mode)"
    using assms(5) by simp
  from dup show ?thesis by (simp add: onClipboardChanged_same)
qed

theorem dedup_idempotent_witness:
  "startsWith (mimeClipboardMode exampleEnv) (COPYQ_MIME_PREFIX exampleEnv)
   \<and> startsWith (mimeWindowTitle exampleEnv) (COPYQ_MIME_PREFIX exampleEnv)
   \<and> \<not> hasSameData (COPYQ_MIME_PREFIX exampleEnv) [(''text/plain'', VByteArray [104, 105])]
          (m_lastData ClipboardMonitor_init Selection)
   \<and> m_lastData (onClipboardChanged exampleEnv Selection
          (\<lambda>m f. [(''text/plain'', VByteArray [104, 105])]) (Some ''Editor'') ClipboardMonitor_init)
        Selection
      = [(''text/plain'', VByteArray [104, 105]),
         (''application/x-copyq-clipboard-mode'', VString ''selection''),
         (''application/x-copyq-owner-window-title'', VByteArray (toUtf8 ''Editor''))]
   \<and> sentMessages (onClipboardChanged exampleEnv Selection
          (\<lambda>m f. [(''text/plain'', VByteArray [104, 105])]) None
          (onClipboardChanged exampleEnv Selection
             (\<lambda>m f. [(''text/plain'', VByteArray [104, 105])]) (Some ''Editor'')
             ClipboardMonitor_init))
      = sentMessages (onClipboardChanged exampleEnv Selection
          (\<lambda>m f. [(''text/plain'', VByteArray [104, 105])]) (Some ''Editor'') ClipboardMonitor_init)"
proof -
  let ?cb = "\<lambda>(m::Mode) (f::QString list). [(''text/plain'', VByteArray [104, 105])]"
  have h1: "startsWith (mimeClipboardMode exampleEnv) (COPYQ_MIME_PREFIX exampleEnv)"
    by (simp add: exampleEnv_def startsWith_def)
  have h2: "startsWith (mimeWindowTitle exampleEnv) (COPYQ_MIME_PREFIX exampleEnv)"
    by (simp add: exampleEnv_def startsWith_def)
  have h3: "\<not> hasSameData (COPYQ_MIME_PREFIX exampleEnv) (?cb Selection (m_formats ClipboardMonitor_init))
          (m_lastData ClipboardMonitor_init Selection)"
    by (simp add: exampleEnv_def startsWith_def ClipboardMonitor_init_def startClientSocket_def
        connect_def hasSameData_def value_of_def contains_def)
  have h4: "m_lastData (onClipboardChanged exampleEnv Selection ?cb (Some ''Editor'') ClipboardMonitor_init)
        Selection
      = [(''text/plain'', VByteArray [104, 105]),
         (''application/x-copyq-clipboard-mode'', VString ''selection''),
         (''application/x-copyq-owner-window-title'', VByteArray (toUtf8 ''Editor''))]"
    using h3
    by (simp add: onClipboardChanged_def Let_def exampleEnv_def sendMessage_def emit_def
        COPYQ_LOG_def contains_def)
  show ?thesis
    using h1 h2 h3 h4
      dedup_idempotent [where env = exampleEnv and mode = Selection and clipboard = ?cb
        and s = ClipboardMonitor_init and w = "Some ''Editor''" and clipboard' = ?cb and w' = None,
        OF h1 h2 h3 refl]
    by simp
qed

text \<open>
  Claim C4. A snapshot that has the keys of the stored one and differs from it only in
  values that became empty byte arrays is judged a duplicate, and no message is sent.
\<close>

theorem cleared_content_is_duplicate:
  assumes "keys (clipboard mode (m_formats s)) = keys (m_lastData s mode)"
      and "\<forall>format \<in> keys (clipboard mode (m_formats s)).
             value_of (clipboard mode (m_formats s)) format = value_of (m_lastData s mode) format
             \<or> value_of (clipboard mode (m_formats s)) format = VByteArray []"
  shows "hasSameData (COPYQ_MIME_PREFIX env) (clipboard mode (m_formats s)) (m_lastData s mode)
       \<and> sentMessages (onClipboardChanged env mode clipboard w s) = sentMessages s"
proof -
  have dup: "hasSameData (COPYQ_MIME_PREFIX env) (clipboard mode (m_formats s)) (m_lastData s mode)"
    unfolding hasSameData_conv using assms by (auto simp: contains_keys)
  then show ?thesis by (simp add: onClipboardChanged_same)
qed

theorem cleared_content_is_duplicate_witness:
  "m_lastData (onClipboardChanged exampleEnv Clipboard
       (\<lambda>m f. [(''text/html'', VByteArray [60]), (''text/plain'', VByteArray [104, 105])])
       None ClipboardMonitor_init) Clipboard
     = [(''text/html'', VByteArray [60]), (''text/plain'', VByteArray [104, 105])]
   \<and> sentMessages (onClipboardChanged exampleEnv Clipboard
         (\<lambda>m f. [(''text/html'', VByteArray []), (''text/plain'', VByteArray [104, 105])]) None
         (onClipboardChanged exampleEnv Clipboard
            (\<lambda>m f. [(''text/html'', VByteArray [60]), (''text/plain'', VByteArray [104, 105])])
            None ClipboardMonitor_init))
     = sentMessages (onClipboardChanged exampleEnv Clipboard
         (\<lambda>m f. [(''text/html'', VByteArray [60]), (''text/plain'', VByteArray [104, 105])])
         None ClipboardMonitor_init)"
proof -
  let ?old = "\<lambda>(m::Mode) (f::QString list).
      [(''text/html'', VByteArray [60]), (''text/plain'', VByteArray [104, 105])]"
  let ?new = "\<lambda>(m::Mode) (f::QString list).
      [(''text/html'', VByteArray []), (''text/plain'', VByteArray [104, 105])]"
  let ?s = "onClipboardChanged exampleEnv Clipboard ?old None ClipboardMonitor_init"
  have stored: "m_lastData ?s Clipboard
      = [(''text/html'', VByteArray [60]), (''text/plain'', VByteArray [104, 105])]"
    by (simp add: onClipboardChanged_def Let_def exampleEnv_def sendMessage_def emit_def
        COPYQ_LOG_def contains_def init_simps hasSameData_def value_of_def startsWith_def)
  have h1: "keys (?new Clipboard (m_formats ?s)) = keys (m_lastData ?s Clipboard)"
    by (simp add: stored keys_def)
  have h2: "\<forall>format \<in> keys (?new Clipboard (m_formats ?s)).
      value_of (?new Clipboard (m_formats ?s)) format = value_of (m_lastData ?s Clipboard) format
      \<or> value_of (?new Clipboard (m_formats ?s)) format = VByteArray []"
    by (simp add: stored keys_def value_of_def)
  show ?thesis
    using stored
      cleared_content_is_duplicate [where clipboard = ?new and mode = Clipboard and s = ?s
        and env = exampleEnv and w = None, OF h1 h2]
    by simp
qed

text \<open>
  Claim C9. With an empty stored snapshot for the mode, a change event whose snapshot has
  only metadata-prefixed formats and formats with empty values is judged a duplicate:
  nothing is sent and the stored snapshot stays empty.
\<close>

theorem empty_baseline_suppresses_contentless_snapshot:
  assumes "m_lastData s mode = []"
      and "\<forall>format \<in> keys (clipboard mode (m_formats s)).
             startsWith format (COPYQ_MIME_PREFIX env)
             \<or> toByteArray (value_of (clipboard mode (m_formats s)) format) = []"
  shows "hasSameData (COPYQ_MIME_PREFIX env) (clipboard mode (m_formats s)) (m_lastData s mode)
       \<and> sentMessages (onClipboardChanged env mode clipboard w s) = sentMessages s
       \<and> m_lastData (onClipboardChanged env mode clipboard w s) mode = []"
proof -
  have dup: "hasSameData (COPYQ_MIME_PREFIX env) (clipboard mode (m_formats s)) (m_lastData s mode)"
    unfolding hasSameData_conv using assms by (auto simp: keys_def)
  with assms(1) show ?thesis by (simp add: onClipboardChanged_same)
qed

theorem empty_baseline_suppresses_contentless_snapshot_witness:
  "m_lastData ClipboardMonitor_init FindBuffer = []
   \<and> sentMessages (onClipboardChanged exampleEnv FindBuffer
        (\<lambda>m f. [(''application/x-copyq-owner'', VByteArray [49]), (''text/plain'', VByteArray [])])
        (Some ''Editor'') ClipboardMonitor_init) = []
   \<and> m_lastData (onClipboardChanged exampleEnv FindBuffer
        (\<lambda>m f. [(''application/x-copyq-owner'', VByteArray [49]), (''text/plain'', VByteArray [])])
        (Some ''Editor'') ClipboardMonitor_init) FindBuffer = []"
proof -
  let ?cb = "\<lambda>(m::Mode) (f::QString list).
      [(''application/x-copyq-owner'', VByteArray [49]), (''text/plain'', VByteArray [])]"
  have h1: "m_lastData ClipboardMonitor_init FindBuffer = []"
    by (simp add: init_simps)
  have h2: "\<forall>format \<in> keys (?cb FindBuffer (m_formats ClipboardMonitor_init)).
      startsWith format (COPYQ_MIME_PREFIX exampleEnv)
      \<or> toByteArray (value_of (?cb FindBuffer (m_formats ClipboardMonitor_init)) format) = []"
    by (simp add: keys_def value_of_def exampleEnv_def startsWith_def)
  show ?thesis
    using h1
      empty_baseline_suppresses_contentless_snapshot [where clipboard = ?cb and mode = FindBuffer
        and s = ClipboardMonitor_init and env = exampleEnv and w = "Some ''Editor''", OF h1 h2]
    by (simp add: sentMessages_def init_simps)
qed

section \<open>Properties of message handling and of the flush\<close>

lemma codes_distinct:
  "MonitorPing \<noteq> MonitorSettings" "MonitorPing \<noteq> MonitorChangeClipboard"
  "MonitorPing \<noteq> MonitorChangeSelection" "MonitorSettings \<noteq> MonitorChangeClipboard"
  "MonitorSettings \<noteq> MonitorChangeSelection" "MonitorChangeClipboard \<noteq> MonitorChangeSelection"
  "MonitorSettings \<noteq> MonitorPing" "MonitorChangeClipboard \<noteq> MonitorPing"
  "MonitorChangeSelection \<noteq> MonitorPing" "MonitorChangeClipboard \<noteq> MonitorSettings"
  "MonitorChangeSelection \<noteq> MonitorSettings" "MonitorChangeSelection \<noteq> MonitorChangeClipboard"
  by (simp_all add: MonitorPing_def MonitorSettings_def MonitorChangeClipboard_def
      MonitorChangeSelection_def)

lemma logConfiguration_fields:
  "m_lastData (logConfiguration env settings s) = m_lastData s"
  "m_newData (logConfiguration env settings s) = m_newData s"
  "m_formats (logConfiguration env settings s) = m_formats s"
  "connections (logConfiguration env settings s) = connections s"
  "m_timerSetNewClipboard (logConfiguration env settings s) = m_timerSetNewClipboard s"
  "exited (logConfiguration env settings s) = exited s"
proof -
  have "\<And>s. m_lastData (foldl (\<lambda>s' (key, val). COPYQ_LOG env (ConfigurationLine key (settingStr val)) s') s settings) = m_lastData s
      \<and> m_newData (foldl (\<lambda>s' (key, val). COPYQ_LOG env (ConfigurationLine key (settingStr val)) s') s settings) = m_newData s
      \<and> m_formats (foldl (\<lambda>s' (key, val). COPYQ_LOG env (ConfigurationLine key (settingStr val)) s') s settings) = m_formats s
      \<and> connections (foldl (\<lambda>s' (key, val). COPYQ_LOG env (ConfigurationLine key (settingStr val)) s') s settings) = connections s
      \<and> m_timerSetNewClipboard (foldl (\<lambda>s' (key, val). COPYQ_LOG env (ConfigurationLine key (settingStr val)) s') s settings) = m_timerSetNewClipboard s
      \<and> exited (foldl (\<lambda>s' (key, val). COPYQ_LOG env (ConfigurationLine key (settingStr val)) s') s settings) = exited s"
    by (induction settings) (auto simp: effects_COPYQ_LOG split: prod.splits)
  then show
    "m_lastData (logConfiguration env settings s) = m_lastData s"
    "m_newData (logConfiguration env settings s) = m_newData s"
    "m_formats (logConfiguration env settings s) = m_formats s"
    "connections (logConfiguration env settings s) = connections s"
    "m_timerSetNewClipboard (logConfiguration env settings s) = m_timerSetNewClipboard s"
    "exited (logConfiguration env settings s) = exited s"
    by (simp_all add: logConfiguration_def effects_COPYQ_LOG)
qed

text \<open>What a message does to the members of the monitor.\<close>

lemma onMessageReceived_newData:
  "m_newData (onMessageReceived env message messageCode s) =
     (if messageCode = MonitorChangeClipboard then (m_newData s)(Clipboard \<mapsto> deserializeData env message)
      else if messageCode = MonitorChangeSelection then (m_newData s)(Selection \<mapsto> deserializeData env message)
      else m_newData s)"
  by (simp add: onMessageReceived_def Let_def codes_distinct effects_COPYQ_LOG
      logConfiguration_fields connect_def emit_def log_def sendMessage_def)

lemma onMessageReceived_timer:
  "m_timerSetNewClipboard (onMessageReceived env message messageCode s) =
     (messageCode = MonitorChangeClipboard \<or> messageCode = MonitorChangeSelection
      \<or> m_timerSetNewClipboard s)"
  by (auto simp add: onMessageReceived_def Let_def codes_distinct effects_COPYQ_LOG
      logConfiguration_fields connect_def emit_def log_def sendMessage_def)

lemma onMessageReceived_connections:
  "connections (onMessageReceived env message messageCode s) =
     (if messageCode = MonitorSettings \<and> (SigClipboardChanged, SlotOnClipboardChanged) \<notin> set (connections s)
      then connections s @ [(SigClipboardChanged, SlotOnClipboardChanged)]
      else connections s)"
  by (auto simp add: onMessageReceived_def Let_def codes_distinct effects_COPYQ_LOG
      logConfiguration_fields connect_def emit_def log_def sendMessage_def)

lemma onMessageReceived_exited:
  "exited (onMessageReceived env message messageCode s) = exited s"
  by (auto simp add: onMessageReceived_def Let_def codes_distinct effects_COPYQ_LOG
      logConfiguration_fields connect_def emit_def log_def sendMessage_def)

lemma onMessageReceived_lastData:
  "m_lastData (onMessageReceived env message messageCode s) = m_lastData s"
  by (auto simp add: onMessageReceived_def Let_def codes_distinct effects_COPYQ_LOG
      logConfiguration_fields connect_def emit_def log_def sendMessage_def)

lemma processMessages_snoc:
  "processMessages env s (msgs @ [(message, messageCode)])
     = onMessageReceived env message messageCode (processMessages env s msgs)"
  by (simp add: processMessages_def)

lemma processMessages_pending:
  assumes "mode = Clipboard \<or> mode = Selection"
      and "filter (\<lambda>m. snd m = changeCode mode) msgs \<noteq> []"
  shows "m_newData (processMessages env s msgs) mode
           = Some (deserializeData env (fst (last (filter (\<lambda>m. snd m = changeCode mode) msgs))))
         \<and> m_timerSetNewClipboard (processMessages env s msgs)"
  using assms(2)
proof (induction msgs rule: rev_induct)
  case Nil
  then show ?case by simp
next
  case (snoc m msgs)
  obtain message messageCode where m: "m = (message, messageCode)" by (cases m)
  show ?case
  proof (cases "messageCode = changeCode mode")
    case True
    with assms(1) show ?thesis
      by (auto simp: m processMessages_snoc onMessageReceived_newData onMessageReceived_timer
          changeCode_def codes_distinct)
  next
    case False
    with snoc have "filter (\<lambda>m. snd m = changeCode mode) msgs \<noteq> []" by (simp add: m)
    from snoc.IH [OF this] False assms(1) show ?thesis
      by (auto simp: m processMessages_snoc onMessageReceived_newData onMessageReceived_timer
          changeCode_def codes_distinct)
  qed
qed

text \<open>What the flush does.\<close>

lemma setNewClipboard_mode_effects:
  "effects (setNewClipboard_mode mode s)
     = effects s @ (case m_newData s mode of None \<Rightarrow> [] | Some data \<Rightarrow> [SetData mode data])"
  "m_newData (setNewClipboard_mode mode s) = (m_newData s)(mode := None)"
  "m_timerSetNewClipboard (setNewClipboard_mode mode s) = m_timerSetNewClipboard s"
  "m_lastData (setNewClipboard_mode mode s) = m_lastData s"
  "connections (setNewClipboard_mode mode s) = connections s"
  "exited (setNewClipboard_mode mode s) = exited s"
  by (auto simp: setNewClipboard_mode_def emit_def split: option.splits)

lemma timerTimeout_active:
  assumes "m_timerSetNewClipboard s"
  shows "effects (timerTimeout s) = effects s @ flushEffects s"
    and "m_newData (timerTimeout s) = (m_newData s)(Clipboard := None, Selection := None)"
  using assms
  by (simp_all add: timerTimeout_def setNewClipboard_def setNewClipboard_mode_effects flushEffects_def)

lemma newEffects_append: "effects s' = effects s @ xs \<Longrightarrow> newEffects s s' = xs"
  by (simp add: newEffects_def)

lemma setDataFor_flushEffects:
  "setDataFor mode (flushEffects s)
     = (if mode = Clipboard \<or> mode = Selection
        then (case m_newData s mode of None \<Rightarrow> [] | Some data \<Rightarrow> [data]) else [])"
  by (cases mode) (auto simp: setDataFor_def flushEffects_def split: option.splits)

lemma onClipboardChanged_fields:
  "m_newData (onClipboardChanged env mode clipboard w s) = m_newData s"
  "connections (onClipboardChanged env mode clipboard w s) = connections s"
  "m_timerSetNewClipboard (onClipboardChanged env mode clipboard w s) = m_timerSetNewClipboard s"
  "exited (onClipboardChanged env mode clipboard w s) = exited s"
  "m_formats (onClipboardChanged env mode clipboard w s) = m_formats s"
  by (simp_all add: onClipboardChanged_def Let_def effects_COPYQ_LOG sendMessage_def emit_def)

lemma onExit_fields:
  "m_newData (onDisconnected s) = m_newData s"
  "connections (onDisconnected s) = connections s"
  "m_newData (onConnectionFailed s) = m_newData s"
  "connections (onConnectionFailed s) = connections s"
  by (simp_all add: onDisconnected_def onConnectionFailed_def emit_def)

lemma setNewClipboard_fields:
  "m_newData (setNewClipboard s)
     = (if m_timerSetNewClipboard s then m_newData s
        else (m_newData s)(Clipboard := None, Selection := None))"
  "effects (setNewClipboard s)
     = (if m_timerSetNewClipboard s then effects s else effects s @ flushEffects s)"
  "connections (setNewClipboard s) = connections s"
  by (simp_all add: setNewClipboard_def setNewClipboard_mode_effects flushEffects_def)

lemma timerTimeout_fields:
  "m_newData (timerTimeout s)
     = (if m_timerSetNewClipboard s then (m_newData s)(Clipboard := None, Selection := None)
        else m_newData s)"
  "connections (timerTimeout s) = connections s"
  by (simp_all add: timerTimeout_def setNewClipboard_fields)

lemma funpow_preserves:
  assumes "\<And>x. P x \<Longrightarrow> P (f x)" and "P x"
  shows "P ((f ^^ n) x)"
  using assms by (induction n) auto

text \<open>No event makes a write pending for the find buffer.\<close>

lemma pendingModesOk_dom: "pendingModesOk s \<longleftrightarrow> dom (m_newData s) \<subseteq> {Clipboard, Selection}"
proof
  assume ok: "pendingModesOk s"
  show "dom (m_newData s) \<subseteq> {Clipboard, Selection}"
  proof
    fix mode
    assume "mode \<in> dom (m_newData s)"
    with ok show "mode \<in> {Clipboard, Selection}"
      by (cases mode) (auto simp: pendingModesOk_def)
  qed
next
  assume "dom (m_newData s) \<subseteq> {Clipboard, Selection}"
  then show "pendingModesOk s"
    unfolding pendingModesOk_def by (auto simp: dom_def)
qed

lemma dispatch_pendingModesOk:
  assumes "pendingModesOk s"
  shows "pendingModesOk (dispatch env ev s)"
proof (cases ev)
  case (MessageReceived message messageCode)
  have preserved: "\<And>x. pendingModesOk x \<Longrightarrow> pendingModesOk (onMessageReceived env message messageCode x)"
    by (simp add: pendingModesOk_def onMessageReceived_newData)
  show ?thesis
    unfolding MessageReceived dispatch.simps
    by (rule funpow_preserves [where P = pendingModesOk, OF preserved assms])
next
  case (ClipboardChanged mode clipboard w)
  have preserved: "\<And>x. pendingModesOk x \<Longrightarrow> pendingModesOk (onClipboardChanged env mode clipboard w x)"
    by (simp add: pendingModesOk_def onClipboardChanged_fields)
  show ?thesis
    unfolding ClipboardChanged dispatch.simps
    by (rule funpow_preserves [where P = pendingModesOk, OF preserved assms])
next
  case TimerTimeout
  then show ?thesis using assms by (simp add: pendingModesOk_def timerTimeout_fields)
next
  case Disconnected
  have preserved: "\<And>x. pendingModesOk x \<Longrightarrow> pendingModesOk (onDisconnected x)"
    by (simp add: pendingModesOk_def onExit_fields)
  show ?thesis
    unfolding Disconnected dispatch.simps
    by (rule funpow_preserves [where P = pendingModesOk, OF preserved assms])
next
  case ConnectionFailed
  have preserved: "\<And>x. pendingModesOk x \<Longrightarrow> pendingModesOk (onConnectionFailed x)"
    by (simp add: pendingModesOk_def onExit_fields)
  show ?thesis
    unfolding ConnectionFailed dispatch.simps
    by (rule funpow_preserves [where P = pendingModesOk, OF preserved assms])
qed

lemma step_pendingModesOk: "pendingModesOk s \<Longrightarrow> pendingModesOk (step env s ev)"
  by (simp add: step_def dispatch_pendingModesOk)

lemma run_pendingModesOk: "pendingModesOk s \<Longrightarrow> pendingModesOk (run env s evs)"
  unfolding run_def by (induction evs arbitrary: s) (simp_all add: step_pendingModesOk)

lemma init_pendingModesOk: "pendingModesOk ClipboardMonitor_init"
  by (simp add: pendingModesOk_def init_simps)

text \<open>No event connects the change signal a second time.\<close>

lemma deliveries_onMessageReceived:
  "deliveries SigClipboardChanged SlotOnClipboardChanged (onMessageReceived env message messageCode s)
     = (if messageCode = MonitorSettings
           \<and> deliveries SigClipboardChanged SlotOnClipboardChanged s = 0
        then 1 else deliveries SigClipboardChanged SlotOnClipboardChanged s)"
  by (auto simp: deliveries_def onMessageReceived_connections count_list_0_iff)

lemma deliveries_processMessages:
  assumes "deliveries SigClipboardChanged SlotOnClipboardChanged s \<le> 1"
  shows "deliveries SigClipboardChanged SlotOnClipboardChanged (processMessages env s msgs)
     = (if \<exists>m \<in> set msgs. snd m = MonitorSettings then 1
        else deliveries SigClipboardChanged SlotOnClipboardChanged s)"
proof (induction msgs rule: rev_induct)
  case Nil
  then show ?case by (simp add: processMessages_def)
next
  case (snoc m msgs)
  obtain message messageCode where m: "m = (message, messageCode)" by (cases m)
  from snoc assms show ?case
    by (auto simp: m processMessages_snoc deliveries_onMessageReceived)
qed

lemma dispatch_subscribedAtMostOnce:
  assumes "subscribedAtMostOnce s"
  shows "subscribedAtMostOnce (dispatch env ev s)"
proof (cases ev)
  case (MessageReceived message messageCode)
  have preserved: "\<And>x. subscribedAtMostOnce x \<Longrightarrow> subscribedAtMostOnce (onMessageReceived env message messageCode x)"
    by (simp add: subscribedAtMostOnce_def deliveries_onMessageReceived)
  show ?thesis
    unfolding MessageReceived dispatch.simps
    by (rule funpow_preserves [where P = subscribedAtMostOnce, OF preserved assms])
next
  case (ClipboardChanged mode clipboard w)
  have preserved: "\<And>x. subscribedAtMostOnce x \<Longrightarrow> subscribedAtMostOnce (onClipboardChanged env mode clipboard w x)"
    by (simp add: subscribedAtMostOnce_def deliveries_def onClipboardChanged_fields)
  show ?thesis
    unfolding ClipboardChanged dispatch.simps
    by (rule funpow_preserves [where P = subscribedAtMostOnce, OF preserved assms])
next
  case TimerTimeout
  then show ?thesis using assms by (simp add: subscribedAtMostOnce_def deliveries_def timerTimeout_fields)
next
  case Disconnected
  have preserved: "\<And>x. subscribedAtMostOnce x \<Longrightarrow> subscribedAtMostOnce (onDisconnected x)"
    by (simp add: subscribedAtMostOnce_def deliveries_def onExit_fields)
  show ?thesis
    unfolding Disconnected dispatch.simps
    by (rule funpow_preserves [where P = subscribedAtMostOnce, OF preserved assms])
next
  case ConnectionFailed
  have preserved: "\<And>x. subscribedAtMostOnce x \<Longrightarrow> subscribedAtMostOnce (onConnectionFailed x)"
    by (simp add: subscribedAtMostOnce_def deliveries_def onExit_fields)
  show ?thesis
    unfolding ConnectionFailed dispatch.simps
    by (rule funpow_preserves [where P = subscribedAtMostOnce, OF preserved assms])
qed

lemma run_subscribedAtMostOnce: "subscribedAtMostOnce s \<Longrightarrow> subscribedAtMostOnce (run env s evs)"
  unfolding run_def
  by (induction evs arbitrary: s) (simp_all add: step_def dispatch_subscribedAtMostOnce)

lemma exampleEnv_simps:
  "COPYQ_MIME_PREFIX exampleEnv = ''application/x-copyq-''"
  "mimeClipboardMode exampleEnv = ''application/x-copyq-clipboard-mode''"
  "mimeOwner exampleEnv = ''application/x-copyq-owner''"
  "mimeWindowTitle exampleEnv = ''application/x-copyq-owner-window-title''"
  "deserializeData exampleEnv b = [(''text/plain'', VByteArray b)]"
  "readSettings exampleEnv b = (if length b < 4 then (False, [])
                           else (True, [(''formats'', VStringList [''text/plain''])]))"
  "hasLogLevel exampleEnv level = (level = LogError)"
  by (simp_all add: exampleEnv_def)

lemma run_simps:
  "run env s [] = s"
  "run env s (ev # evs) = run env (step env s ev) evs"
  by (simp_all add: run_def)

text \<open>
  Claim C3. Write commands coalesce, and the last one wins: after a burst of messages in
  which at least one asks to change a mode (the clipboard or the selection), the flush calls
  \<^verbatim>\<open>setData\<close> for that mode exactly once, with the snapshot decoded from the last such
  message of the burst.
\<close>

theorem coalescing_last_write_wins:
  assumes "mode = Clipboard \<or> mode = Selection"
      and "filter (\<lambda>m. snd m = changeCode mode) msgs \<noteq> []"
  shows "setDataFor mode
           (newEffects (processMessages env s msgs) (timerTimeout (processMessages env s msgs)))
         = [deserializeData env (fst (last (filter (\<lambda>m. snd m = changeCode mode) msgs)))]"
proof -
  let ?s = "processMessages env s msgs"
  from processMessages_pending [OF assms]
  have pending: "m_newData ?s mode
           = Some (deserializeData env (fst (last (filter (\<lambda>m. snd m = changeCode mode) msgs))))"
    and active: "m_timerSetNewClipboard ?s" by simp_all
  have "newEffects ?s (timerTimeout ?s) = flushEffects ?s"
    by (rule newEffects_append) (rule timerTimeout_active(1) [OF active])
  with pending assms(1) show ?thesis
    by (simp add: setDataFor_flushEffects)
qed

theorem coalescing_last_write_wins_witness:
  "filter (\<lambda>m. snd m = changeCode Clipboard)
      [([1 :: 8 word], MonitorChangeClipboard), ([2], MonitorChangeSelection), ([3], MonitorChangeClipboard)] \<noteq> []
   \<and> setDataFor Clipboard
        (newEffects
           (processMessages exampleEnv ClipboardMonitor_init
              [([1], MonitorChangeClipboard), ([2], MonitorChangeSelection), ([3], MonitorChangeClipboard)])
           (timerTimeout
              (processMessages exampleEnv ClipboardMonitor_init
                 [([1], MonitorChangeClipboard), ([2], MonitorChangeSelection), ([3], MonitorChangeClipboard)])))
      = [ [(''text/plain'', VByteArray [3])]]"
proof -
  let ?msgs = "[([1], MonitorChangeClipboard), ([2], MonitorChangeSelection), ([3], MonitorChangeClipboard)]
      :: (QByteArray \<times> int) list"
  have h1: "Clipboard = Clipboard \<or> Clipboard = Selection" by simp
  have h2: "filter (\<lambda>m. snd m = changeCode Clipboard) ?msgs \<noteq> []"
    by (simp add: changeCode_def)
  show ?thesis
    using h2 coalescing_last_write_wins [where env = exampleEnv and s = ClipboardMonitor_init, OF h1 h2]
    by (simp add: changeCode_def codes_distinct exampleEnv_simps)
qed

text \<open>
  Claim C5, as the code has it. The settings branch does not look at the status of the
  stream. For a payload that fails to decode, leaving the settings map empty, the list
  of accepted formats stays; the change signal is connected if it was not, and left alone
  if it was; \<^verbatim>\<open>loadSettings\<close> is called with the empty map; at debug level the two lines
  "Loading configuration:" and "Configured" are logged and nothing tells of the failure;
  stored snapshots, pending writes and the timer stay, nothing is sent and \<^verbatim>\<open>exit\<close> is
  not called.
\<close>

theorem malformed_settings_handled:
  assumes "readSettings env message = (False, [])"
  shows "m_formats (onMessageReceived env message MonitorSettings s) = m_formats s
       \<and> connections (onMessageReceived env message MonitorSettings s)
           = (if (SigClipboardChanged, SlotOnClipboardChanged) \<in> set (connections s)
              then connections s
              else connections s @ [(SigClipboardChanged, SlotOnClipboardChanged)])
       \<and> newEffects s (onMessageReceived env message MonitorSettings s)
           = (if hasLogLevel env LogDebug
              then [Log LogDebug LoadingConfiguration, LoadSettings [], Log LogDebug Configured]
              else [LoadSettings []])
       \<and> m_lastData (onMessageReceived env message MonitorSettings s) = m_lastData s
       \<and> m_newData (onMessageReceived env message MonitorSettings s) = m_newData s
       \<and> m_timerSetNewClipboard (onMessageReceived env message MonitorSettings s)
           = m_timerSetNewClipboard s
       \<and> exited (onMessageReceived env message MonitorSettings s) = exited s"
  using assms
  by (simp add: onMessageReceived_def Let_def codes_distinct logConfiguration_def COPYQ_LOG_def
      log_def connect_def emit_def contains_def newEffects_def)

theorem malformed_settings_handled_witness:
  "readSettings exampleEnv [255] = (False, [])
   \<and> m_formats (onMessageReceived exampleEnv [255] MonitorSettings ClipboardMonitor_init) = []
   \<and> connections (onMessageReceived exampleEnv [255] MonitorSettings ClipboardMonitor_init)
        = connections ClipboardMonitor_init @ [(SigClipboardChanged, SlotOnClipboardChanged)]
   \<and> newEffects ClipboardMonitor_init
        (onMessageReceived exampleEnv [255] MonitorSettings ClipboardMonitor_init)
        = [LoadSettings []]"
proof -
  have h: "readSettings exampleEnv [255] = (False, [])"
    by (simp add: exampleEnv_simps)
  show ?thesis
    using h malformed_settings_handled [OF h, of ClipboardMonitor_init]
    by (simp add: init_simps exampleEnv_simps)
qed

text \<open>
  Claim C5, as stated, fails at the first settings message of a monitor when its payload
  cannot be decoded: the monitor was not subscribed to the change signal before the
  message and is subscribed after it, \<^verbatim>\<open>loadSettings\<close> is called, and nothing is logged.
\<close>

theorem malformed_settings_counterexample:
  "\<not> fst (readSettings exampleEnv [255])
   \<and> deliveries SigClipboardChanged SlotOnClipboardChanged ClipboardMonitor_init = 0
   \<and> deliveries SigClipboardChanged SlotOnClipboardChanged
        (onMessageReceived exampleEnv [255] MonitorSettings ClipboardMonitor_init) = 1
   \<and> effects (onMessageReceived exampleEnv [255] MonitorSettings ClipboardMonitor_init)
        = [LoadSettings []]"
  by (simp add: onMessageReceived_def Let_def exampleEnv_simps init_simps deliveries_def
      codes_distinct logConfiguration_def COPYQ_LOG_def connect_def emit_def contains_def)

text \<open>
  Claim C6. Subscription is idempotent: in a monitor with at most one connection of the
  clipboard's change signal, after any burst of messages with at least one settings
  message there is exactly one such connection, whatever the payloads. The constructed
  monitor has none, and no sequence of events gives it more than one.
\<close>

theorem subscription_idempotent:
  assumes "deliveries SigClipboardChanged SlotOnClipboardChanged s \<le> 1"
      and "\<exists>m \<in> set msgs. snd m = MonitorSettings"
  shows "deliveries SigClipboardChanged SlotOnClipboardChanged (processMessages env s msgs) = 1
       \<and> deliveries SigClipboardChanged SlotOnClipboardChanged ClipboardMonitor_init = 0
       \<and> deliveries SigClipboardChanged SlotOnClipboardChanged (run env ClipboardMonitor_init evs) \<le> 1"
proof -
  have "subscribedAtMostOnce ClipboardMonitor_init"
    by (simp add: subscribedAtMostOnce_def deliveries_def init_simps)
  from run_subscribedAtMostOnce [OF this]
  have "deliveries SigClipboardChanged SlotOnClipboardChanged (run env ClipboardMonitor_init evs) \<le> 1"
    by (simp add: subscribedAtMostOnce_def)
  with assms show ?thesis
    by (simp add: deliveries_processMessages) (simp add: deliveries_def init_simps)
qed

theorem subscription_idempotent_witness:
  "deliveries SigClipboardChanged SlotOnClipboardChanged ClipboardMonitor_init \<le> 1
   \<and> deliveries SigClipboardChanged SlotOnClipboardChanged
        (processMessages exampleEnv ClipboardMonitor_init
           [([0, 0, 0, 0], MonitorSettings), ([0, 0, 0, 0], MonitorSettings)]) = 1"
proof -
  let ?msgs = "[([0, 0, 0, 0], MonitorSettings), ([0, 0, 0, 0], MonitorSettings)] :: (QByteArray \<times> int) list"
  have h1: "deliveries SigClipboardChanged SlotOnClipboardChanged ClipboardMonitor_init \<le> 1"
    by (simp add: deliveries_def init_simps)
  have h2: "\<exists>m \<in> set ?msgs. snd m = MonitorSettings" by simp
  show ?thesis
    using h1 subscription_idempotent [where env = exampleEnv and evs = "[]", OF h1 h2]
    by simp
qed

text \<open>
  Claim C7. When the timer fires in a state the monitor can reach, the flush calls
  \<^verbatim>\<open>setData\<close> once with the pending snapshot for every mode that has one and not at all
  for a mode without, does nothing else to the outside, and leaves no write pending.
\<close>

theorem flush_applies_pending_writes:
  assumes "s = run env ClipboardMonitor_init evs"
      and "m_timerSetNewClipboard s"
  shows "(\<forall>mode. setDataFor mode (newEffects s (timerTimeout s))
              = (case m_newData s mode of None \<Rightarrow> [] | Some data \<Rightarrow> [data]))
       \<and> list_all isSetData (newEffects s (timerTimeout s))
       \<and> m_newData (timerTimeout s) = Map.empty"
proof -
  have ok: "pendingModesOk s"
    using assms(1) run_pendingModesOk [OF init_pendingModesOk] by simp
  have new: "newEffects s (timerTimeout s) = flushEffects s"
    by (rule newEffects_append) (rule timerTimeout_active(1) [OF assms(2)])
  have "setDataFor mode (flushEffects s)
          = (case m_newData s mode of None \<Rightarrow> [] | Some data \<Rightarrow> [data])" for mode
    using ok by (cases mode) (simp_all add: setDataFor_flushEffects pendingModesOk_def)
  moreover have "list_all isSetData (flushEffects s)"
    by (simp add: flushEffects_def split: option.splits)
  moreover have "m_newData (timerTimeout s) = Map.empty"
  proof
    fix mode
    show "m_newData (timerTimeout s) mode = Map.empty mode"
      using ok assms(2) by (cases mode) (simp_all add: timerTimeout_fields pendingModesOk_def)
  qed
  ultimately show ?thesis by (simp add: new)
qed

theorem flush_applies_pending_writes_witness:
  "m_timerSetNewClipboard (run exampleEnv ClipboardMonitor_init [MessageReceived [7] MonitorChangeSelection])
   \<and> setDataFor Selection
        (newEffects (run exampleEnv ClipboardMonitor_init [MessageReceived [7] MonitorChangeSelection])
           (timerTimeout (run exampleEnv ClipboardMonitor_init [MessageReceived [7] MonitorChangeSelection])))
      = [ [(''text/plain'', VByteArray [7])]]
   \<and> setDataFor Clipboard
        (newEffects (run exampleEnv ClipboardMonitor_init [MessageReceived [7] MonitorChangeSelection])
           (timerTimeout (run exampleEnv ClipboardMonitor_init [MessageReceived [7] MonitorChangeSelection])))
      = []
   \<and> m_newData (timerTimeout (run exampleEnv ClipboardMonitor_init [MessageReceived [7] MonitorChangeSelection]))
      = Map.empty"
proof -
  let ?s = "run exampleEnv ClipboardMonitor_init [MessageReceived [7] MonitorChangeSelection]"
  have s: "?s = onMessageReceived exampleEnv [7] MonitorChangeSelection ClipboardMonitor_init"
    by (simp add: run_simps step_def init_simps deliveries_def)
  have h2: "m_timerSetNewClipboard ?s"
    by (simp add: s onMessageReceived_timer)
  have p1: "m_newData ?s Selection = Some [(''text/plain'', VByteArray [7])]"
    by (simp add: s onMessageReceived_newData codes_distinct exampleEnv_simps)
  have p2: "m_newData ?s Clipboard = None"
    by (simp add: s onMessageReceived_newData codes_distinct init_simps)
  from flush_applies_pending_writes [OF refl h2]
  have all: "\<forall>mode. setDataFor mode (newEffects ?s (timerTimeout ?s))
              = (case m_newData ?s mode of None \<Rightarrow> [] | Some data \<Rightarrow> [data])"
    and empty: "m_newData (timerTimeout ?s) = Map.empty"
    by auto
  from all [rule_format, of Selection] all [rule_format, of Clipboard] empty h2 p1 p2
  show ?thesis by simp
qed

text \<open>
  Claim C10. In every state the monitor can reach, writes are pending for the clipboard and
  the selection only; every event keeps it so; and the flush, when it runs, takes out and
  applies the entries of exactly these two modes, the clipboard first.
\<close>

theorem pending_write_set_modes:
  "dom (m_newData (run env ClipboardMonitor_init evs)) \<subseteq> {Clipboard, Selection}
   \<and> (dom (m_newData s) \<subseteq> {Clipboard, Selection}
        \<longrightarrow> dom (m_newData (step env s ev)) \<subseteq> {Clipboard, Selection})
   \<and> (\<not> m_timerSetNewClipboard s \<longrightarrow>
        m_newData (setNewClipboard s) = (m_newData s)(Clipboard := None, Selection := None)
        \<and> newEffects s (setNewClipboard s)
            = (case m_newData s Clipboard of None \<Rightarrow> [] | Some data \<Rightarrow> [SetData Clipboard data])
              @ (case m_newData s Selection of None \<Rightarrow> [] | Some data \<Rightarrow> [SetData Selection data]))"
proof (intro conjI impI)
  show "dom (m_newData (run env ClipboardMonitor_init evs)) \<subseteq> {Clipboard, Selection}"
    using run_pendingModesOk [OF init_pendingModesOk] by (simp add: pendingModesOk_dom)
next
  assume "dom (m_newData s) \<subseteq> {Clipboard, Selection}"
  then show "dom (m_newData (step env s ev)) \<subseteq> {Clipboard, Selection}"
    using step_pendingModesOk by (simp add: pendingModesOk_dom)
next
  assume "\<not> m_timerSetNewClipboard s"
  then show "m_newData (setNewClipboard s) = (m_newData s)(Clipboard := None, Selection := None)"
    by (simp add: setNewClipboard_fields)
next
  assume "\<not> m_timerSetNewClipboard s"
  then have "effects (setNewClipboard s) = effects s @ flushEffects s"
    by (simp add: setNewClipboard_fields)
  then show "newEffects s (setNewClipboard s)
            = (case m_newData s Clipboard of None \<Rightarrow> [] | Some data \<Rightarrow> [SetData Clipboard data])
              @ (case m_newData s Selection of None \<Rightarrow> [] | Some data \<Rightarrow> [SetData Selection data])"
    by (simp add: newEffects_append flushEffects_def)
qed

theorem pending_write_set_modes_witness:
  "dom (m_newData (run exampleEnv ClipboardMonitor_init
          [MessageReceived [7] MonitorChangeSelection, MessageReceived [8] MonitorChangeClipboard]))
     = {Clipboard, Selection}
   \<and> dom (m_newData (step exampleEnv
          (run exampleEnv ClipboardMonitor_init
             [MessageReceived [7] MonitorChangeSelection, MessageReceived [8] MonitorChangeClipboard])
          TimerTimeout)) = {}"
proof -
  let ?evs = "[MessageReceived [7] MonitorChangeSelection, MessageReceived [8] MonitorChangeClipboard]"
  let ?s = "run exampleEnv ClipboardMonitor_init ?evs"
  have s: "?s = onMessageReceived exampleEnv [8] MonitorChangeClipboard
                  (onMessageReceived exampleEnv [7] MonitorChangeSelection ClipboardMonitor_init)"
    by (simp add: run_simps step_def init_simps deliveries_def onMessageReceived_exited
        onMessageReceived_connections codes_distinct)
  have d: "dom (m_newData ?s) = {Clipboard, Selection}"
    by (auto simp add: s onMessageReceived_newData codes_distinct init_simps)
  have t: "dom (m_newData (step exampleEnv ?s TimerTimeout)) = {}"
    by (simp add: step_def s onMessageReceived_exited init_simps timerTimeout_fields
        onMessageReceived_timer onMessageReceived_newData codes_distinct)
  from pending_write_set_modes [of exampleEnv ?evs ?s TimerTimeout] d t
  show ?thesis by simp
qed

section \<open>Properties of the framed transport\<close>

text \<open>Reading back what was written, and what appending bytes does to the steps of the reassembly.\<close>

lemma length_writeUInt32 [simp]: "length (writeUInt32 w) = 4"
  by (simp add: writeUInt32_def)

lemma readUInt32_writeUInt32: "readUInt32 (writeUInt32 w @ rest) = w"
  unfolding readUInt32_def writeUInt32_def
  apply simp
  apply (rule bit_word_eqI)
  apply (auto simp add: bit_simps)
  subgoal for n by (cases "16 \<le> n") auto
  subgoal for n by (cases "16 \<le> n") auto
  done

lemma readUInt32_take: "4 \<le> length bs \<Longrightarrow> readUInt32 (take 4 bs) = readUInt32 bs"
  by (auto simp: readUInt32_def split: list.splits)

lemma readUInt32_append: "4 \<le> length bs \<Longrightarrow> readUInt32 (bs @ rest) = readUInt32 bs"
  by (auto simp: readUInt32_def split: list.splits)

lemma readMessageLength_idem: "readMessageLength (readMessageLength s) = readMessageLength s"
  by (simp add: readMessageLength_def)

lemma reassemble_readMessageLength: "reassemble (readMessageLength s) = reassemble s"
  by (subst (1 2) reassemble.simps) (simp add: readMessageLength_idem)

lemma readMessageLength_append:
  assumes "m_hasMessageLength (readMessageLength s)"
  shows "readMessageLength (s\<lparr>m_message := m_message s @ b\<rparr>)
           = (readMessageLength s)\<lparr>m_message := m_message (readMessageLength s) @ b\<rparr>"
  using assms
  by (auto simp: readMessageLength_def readUInt32_take readUInt32_append split: if_splits)

lemma readMessageLength_closed: "m_closed (readMessageLength s) = m_closed s"
  by (simp add: readMessageLength_def)

lemma splitMessage_append:
  assumes "unat (m_messageLength s) \<le> length (m_message s)"
  shows "splitMessage (s\<lparr>m_message := m_message s @ b\<rparr>)
           = (splitMessage s)\<lparr>m_message := m_message (splitMessage s) @ b\<rparr>"
  using assms by (simp add: splitMessage_def Let_def)

lemma reassemble_append:
  "\<not> m_closed s \<Longrightarrow>
     reassemble (s\<lparr>m_message := m_message s @ b\<rparr>) = onReadyRead (reassemble s) b"
proof (induction s rule: reassemble.induct)
  case (1 s)
  let ?s1 = "readMessageLength s"
  let ?n = "unat (m_messageLength ?s1)"
  show ?case
  proof (cases "m_hasMessageLength ?s1")
    case False
    then have "reassemble s = s"
      by (subst reassemble.simps) (auto simp: readMessageLength_def split: if_splits)
    with 1(2) show ?thesis by (simp add: onReadyRead_def)
  next
    case has: True
    have lhs: "reassemble (s\<lparr>m_message := m_message s @ b\<rparr>)
                 = reassemble (?s1\<lparr>m_message := m_message ?s1 @ b\<rparr>)"
      using readMessageLength_append [OF has, of b] reassemble_readMessageLength by metis
    have open1: "\<not> m_closed ?s1" using 1(2) by (simp add: readMessageLength_closed)
    show ?thesis
    proof (cases "length (m_message ?s1) < ?n")
      case True
      then have "reassemble s = ?s1"
        using has by (subst reassemble.simps) simp
      with lhs open1 show ?thesis by (simp add: onReadyRead_def)
    next
      case enough: False
      show ?thesis
      proof (cases "?n < 4")
        case True
        then have r: "reassemble s = framingError ?s1"
          using has enough by (subst reassemble.simps) simp
        have "reassemble (?s1\<lparr>m_message := m_message ?s1 @ b\<rparr>)
                = framingError (?s1\<lparr>m_message := m_message ?s1 @ b\<rparr>)"
          using has enough True
          by (subst reassemble.simps) (simp add: readMessageLength_def)
        also have "\<dots> = framingError ?s1" by (simp add: framingError_def)
        finally show ?thesis using lhs r by (simp add: onReadyRead_def framingError_def)
      next
        case False
        have r: "reassemble s = reassemble (splitMessage ?s1)"
          using has enough False by (subst reassemble.simps) simp
        have open2: "\<not> m_closed (splitMessage ?s1)"
          using open1 by (simp add: splitMessage_def Let_def)
        have "reassemble (?s1\<lparr>m_message := m_message ?s1 @ b\<rparr>)
                = reassemble (splitMessage (?s1\<lparr>m_message := m_message ?s1 @ b\<rparr>))"
          using has enough False
          by (subst reassemble.simps) (simp add: readMessageLength_def)
        also have "\<dots> = reassemble ((splitMessage ?s1)\<lparr>m_message := m_message (splitMessage ?s1) @ b\<rparr>)"
          using enough by (simp add: splitMessage_append)
        also have "\<dots> = onReadyRead (reassemble (splitMessage ?s1)) b"
          using 1(1) has enough False open2 by simp
        finally show ?thesis using lhs r by simp
      qed
    qed
  qed
qed

lemma onReadyRead_append: "onReadyRead (onReadyRead s a) b = onReadyRead s (a @ b)"
proof (cases "m_closed s")
  case True
  then show ?thesis by (simp add: onReadyRead_def)
next
  case False
  then have "reassemble ((s\<lparr>m_message := m_message s @ a\<rparr>)\<lparr>m_message := m_message (s\<lparr>m_message := m_message s @ a\<rparr>) @ b\<rparr>)
      = onReadyRead (reassemble (s\<lparr>m_message := m_message s @ a\<rparr>)) b"
    by (intro reassemble_append) simp
  with False show ?thesis by (simp add: onReadyRead_def)
qed

lemma feed_onReadyRead: "feed (onReadyRead s a) chunks = onReadyRead s (a @ concat chunks)"
  by (induction chunks arbitrary: a) (simp_all add: feed_def onReadyRead_append)

lemma reassemble_init: "reassemble ClientSocket_init = ClientSocket_init"
  by (subst reassemble.simps) (simp add: ClientSocket_init_def readMessageLength_def)

lemma feed_init: "feed ClientSocket_init chunks = onReadyRead ClientSocket_init (concat chunks)"
proof -
  have "onReadyRead ClientSocket_init [] = ClientSocket_init"
    using reassemble_init by (simp add: onReadyRead_def ClientSocket_init_def)
  then have "feed ClientSocket_init chunks = feed (onReadyRead ClientSocket_init []) chunks" by simp
  then show ?thesis by (simp only: feed_onReadyRead append_Nil)
qed

text \<open>Reassembly on a fresh buffer that holds the first \<^verbatim>\<open>k\<close> bytes of a serialised sequence.\<close>

lemma length_serializeMessage: "length (serializeMessage (c, p)) = 8 + length p"
  by (simp add: serializeMessage_def)

lemma unat_length_prefix:
  assumes "4 + length p < 2 ^ 32"
  shows "unat (of_nat (4 + length p) :: 32 word) = 4 + length p"
    and "unat (4 + of_nat (length p) :: 32 word) = 4 + length p"
proof -
  have "unat (of_nat (4 + length p) :: 32 word) = (4 + length p) mod 2 ^ 32"
    by (simp only: unat_of_nat) simp
  with assms show "unat (of_nat (4 + length p) :: 32 word) = 4 + length p" by simp
  then show "unat (4 + of_nat (length p) :: 32 word) = 4 + length p" by simp
qed

lemma completeMessages_all:
  "length (serializeMessages msgs) \<le> k \<Longrightarrow> completeMessages k msgs = msgs"
  by (induction msgs arbitrary: k) (auto simp: serializeMessages_def)

lemma reassemble_incomplete:
  assumes "\<not> m_hasMessageLength s"
      and "4 + length p < 2 ^ 32"
      and "m_message s = take k (serializeMessage (c, p) @ rest)"
      and "k < length (serializeMessage (c, p))"
  shows "emitted (reassemble s) = emitted s \<and> m_closed (reassemble s) = m_closed s"
proof -
  let ?len = "of_nat (4 + length p) :: 32 word"
  have n: "unat ?len = 4 + length p"
    by (rule unat_length_prefix(1) [OF assms(2)])
  have buf: "m_message s = take k (writeUInt32 ?len @ writeUInt32 c @ p)"
    using assms(3,4) by (simp add: serializeMessage_def)
  have k: "k < 8 + length p" using assms(4) by (simp add: length_serializeMessage)
  show ?thesis
  proof (cases "k < 4")
    case True
    then have "readMessageLength s = s"
      using assms(1) buf by (simp add: readMessageLength_def)
    then have "reassemble s = s"
      using assms(1) by (subst reassemble.simps) simp
    then show ?thesis by simp
  next
    case False
    then have len4: "4 \<le> length (m_message s)" using buf by simp
    have t4: "take 4 (m_message s) = writeUInt32 ?len"
      using False buf by simp
    have "readUInt32 (take 4 (m_message s)) = ?len"
      unfolding t4 using readUInt32_writeUInt32 [of ?len "[]"] by simp
    then have s1: "readMessageLength s
        = s\<lparr>m_hasMessageLength := True, m_messageLength := ?len, m_message := drop 4 (m_message s)\<rparr>"
      using assms(1) len4 by (simp add: readMessageLength_def)
    have "length (drop 4 (m_message s)) < 4 + length p"
      using buf k False by simp
    then have short: "length (m_message (readMessageLength s)) < unat (m_messageLength (readMessageLength s))"
      unfolding s1 using n by simp
    have has: "m_hasMessageLength (readMessageLength s)" unfolding s1 by simp
    have "reassemble s = readMessageLength s"
      using short has by (subst reassemble.simps) simp
    then show ?thesis unfolding s1 by simp
  qed
qed

lemma reassemble_complete:
  assumes "\<not> m_hasMessageLength s"
      and "4 + length p < 2 ^ 32"
      and "m_message s = serializeMessage (c, p) @ rest"
  shows "reassemble s
           = reassemble (s\<lparr>m_messageLength := of_nat (4 + length p), m_message := rest,
                            emitted := emitted s @ [messageReceived p c]\<rparr>)"
proof -
  define len :: "32 word" where "len = of_nat (4 + length p)"
  have n: "unat len = 4 + length p"
    unfolding len_def by (rule unat_length_prefix(1) [OF assms(2)])
  have buf: "m_message s = writeUInt32 len @ writeUInt32 c @ p @ rest"
    using assms(3) by (simp add: serializeMessage_def len_def)
  have "readUInt32 (take 4 (m_message s)) = len"
    using readUInt32_writeUInt32 [of len "[]"] by (simp add: buf)
  then have s1: "readMessageLength s
      = s\<lparr>m_hasMessageLength := True, m_messageLength := len,
           m_message := writeUInt32 c @ p @ rest\<rparr>"
    using assms(1) by (simp add: readMessageLength_def buf)
  have code: "readUInt32 (writeUInt32 c) = c"
    using readUInt32_writeUInt32 [of c "[]"] by simp
  have split: "splitMessage (readMessageLength s)
      = s\<lparr>m_hasMessageLength := False, m_messageLength := len, m_message := rest,
           emitted := emitted s @ [messageReceived p c]\<rparr>"
    unfolding s1 by (simp add: splitMessage_def Let_def n code)
  have "reassemble s = reassemble (splitMessage (readMessageLength s))"
    by (subst reassemble.simps) (simp add: s1 n)
  also have "\<dots> = reassemble (s\<lparr>m_messageLength := len, m_message := rest,
                            emitted := emitted s @ [messageReceived p c]\<rparr>)"
    unfolding split using assms(1) by (cases s) simp
  finally show ?thesis unfolding len_def .
qed

lemma reassemble_stream:
  assumes "\<forall>m \<in> set msgs. 4 + length (snd m) < 2 ^ 32"
      and "\<not> m_hasMessageLength s"
      and "m_message s = take k (serializeMessages msgs)"
  shows "emitted (reassemble s) = emitted s @ map signalOf (completeMessages k msgs)
       \<and> m_closed (reassemble s) = m_closed s
       \<and> (length (serializeMessages msgs) \<le> k
            \<longrightarrow> m_message (reassemble s) = [] \<and> \<not> m_hasMessageLength (reassemble s))"
  using assms
proof (induction msgs arbitrary: k s)
  case Nil
  then have "reassemble s = s"
    by (subst reassemble.simps) (simp add: readMessageLength_def serializeMessages_def)
  with Nil show ?case by (simp add: serializeMessages_def)
next
  case (Cons m msgs)
  obtain c p where m: "m = (c, p)" by (cases m)
  have size: "4 + length p < 2 ^ 32" using Cons.prems(1) by (simp add: m)
  have stream: "serializeMessages ((c, p) # msgs) = serializeMessage (c, p) @ serializeMessages msgs"
    by (simp add: serializeMessages_def)
  show ?case
  proof (cases "length (serializeMessage (c, p)) \<le> k")
    case False
    then have short: "k < length (serializeMessage (c, p))" by simp
    have buf: "m_message s = take k (serializeMessage (c, p) @ serializeMessages msgs)"
      using Cons.prems(3) by (simp add: m stream)
    from reassemble_incomplete [OF Cons.prems(2) size buf short] False
    show ?thesis by (simp add: m stream)
  next
    case True
    let ?k' = "k - length (serializeMessage (c, p))"
    let ?s' = "s\<lparr>m_messageLength := of_nat (4 + length p),
                  m_message := take ?k' (serializeMessages msgs),
                  emitted := emitted s @ [messageReceived p c]\<rparr>"
    have buf: "m_message s = serializeMessage (c, p) @ take ?k' (serializeMessages msgs)"
      using Cons.prems(3) True by (simp add: m stream)
    have r: "reassemble s = reassemble ?s'"
      by (rule reassemble_complete [OF Cons.prems(2) size buf])
    have "\<forall>m \<in> set msgs. 4 + length (snd m) < 2 ^ 32" using Cons.prems(1) by simp
    from Cons.IH [OF this, of ?s' ?k'] Cons.prems(2)
    have "emitted (reassemble ?s') = emitted ?s' @ map signalOf (completeMessages ?k' msgs)
       \<and> m_closed (reassemble ?s') = m_closed ?s'
       \<and> (length (serializeMessages msgs) \<le> ?k'
            \<longrightarrow> m_message (reassemble ?s') = [] \<and> \<not> m_hasMessageLength (reassemble ?s'))"
      by simp
    with True show ?thesis
      by (auto simp: r m stream signalOf_def)
  qed
qed

text \<open>
  Claim C8. Framing round trip: serialise any sequence of messages whose bodies fit the
  32-bit length prefix, cut the first \<^verbatim>\<open>k\<close> bytes of the result into chunks in any way
  (chunks of one byte and empty chunks included) and feed the chunks to a fresh socket. The
  socket emits exactly the messages that lie wholly within these \<^verbatim>\<open>k\<close> bytes, in order:
  none twice, none lost, none before its last byte has arrived. With all the bytes fed
  it has emitted the whole sequence, its buffer is empty and it is open.
\<close>

theorem framing_round_trip:
  assumes "\<forall>m \<in> set msgs. 4 + length (snd m) < 2 ^ 32"
      and "concat chunks = take k (serializeMessages msgs)"
  shows "emitted (feed ClientSocket_init chunks) = map signalOf (completeMessages k msgs)
       \<and> (length (serializeMessages msgs) \<le> k \<longrightarrow>
            emitted (feed ClientSocket_init chunks) = map signalOf msgs
            \<and> m_message (feed ClientSocket_init chunks) = []
            \<and> \<not> m_hasMessageLength (feed ClientSocket_init chunks)
            \<and> \<not> m_closed (feed ClientSocket_init chunks))"
proof -
  let ?s = "ClientSocket_init\<lparr>m_message := m_message ClientSocket_init @ concat chunks\<rparr>"
  have "feed ClientSocket_init chunks = onReadyRead ClientSocket_init (concat chunks)"
    by (rule feed_init)
  also have "\<dots> = reassemble ?s"
    by (simp add: onReadyRead_def ClientSocket_init_def)
  finally have feed: "feed ClientSocket_init chunks = reassemble ?s" .
  have fresh: "\<not> m_hasMessageLength ?s" "m_message ?s = take k (serializeMessages msgs)"
    using assms(2) by (simp_all add: ClientSocket_init_def)
  have start: "emitted ?s = []" "\<not> m_closed ?s"
    by (simp_all add: ClientSocket_init_def)
  from reassemble_stream [OF assms(1) fresh] start
  have "emitted (reassemble ?s) = map signalOf (completeMessages k msgs)"
    and "\<not> m_closed (reassemble ?s)"
    and "length (serializeMessages msgs) \<le> k
           \<longrightarrow> m_message (reassemble ?s) = [] \<and> \<not> m_hasMessageLength (reassemble ?s)"
    by simp_all
  then show ?thesis
    unfolding feed by (auto simp: completeMessages_all)
qed

theorem framing_round_trip_witness:
  "serializeMessages [(1, [65]), (2, [])] = [0, 0, 0, 5, 0, 0, 0, 1, 65, 0, 0, 0, 4, 0, 0, 0, 2]
   \<and> emitted (feed ClientSocket_init [ [0, 0, 0], [5, 0, 0, 0, 1, 65, 0, 0], [0, 4, 0, 0, 0, 2]])
       = [messageReceived [65] 1, messageReceived [] 2]
   \<and> emitted (feed ClientSocket_init [ [0, 0, 0], [5, 0, 0, 0, 1, 65, 0, 0]])
       = [messageReceived [65] 1]
   \<and> emitted (feed ClientSocket_init [ [0, 0, 0, 5, 0, 0, 0, 1]]) = []"
proof -
  let ?msgs = "[(1, [65]), (2, [])] :: Message list"
  have ser: "serializeMessages ?msgs = [0, 0, 0, 5, 0, 0, 0, 1, 65, 0, 0, 0, 4, 0, 0, 0, 2]"
    by (simp add: serializeMessages_def serializeMessage_def writeUInt32_def)
  have sizes: "\<forall>m \<in> set ?msgs. 4 + length (snd m) < 2 ^ 32" by simp
  have c1: "concat [ [0, 0, 0], [5, 0, 0, 0, 1, 65, 0, 0], [0, 4, 0, 0, 0, 2 :: 8 word]]
              = take 17 (serializeMessages ?msgs)"
    by (simp add: ser)
  have c2: "concat [ [0, 0, 0], [5, 0, 0, 0, 1, 65, 0, 0 :: 8 word]]
              = take 11 (serializeMessages ?msgs)"
    by (simp add: ser)
  have c3: "concat [ [0, 0, 0, 5, 0, 0, 0, 1 :: 8 word]] = take 8 (serializeMessages ?msgs)"
    by (simp add: ser)
  have l1: "length (serializeMessage (1, [65])) = 9" "length (serializeMessage (2, [])) = 8"
    by (simp_all add: length_serializeMessage)
  from framing_round_trip [OF sizes c1] framing_round_trip [OF sizes c2]
    framing_round_trip [OF sizes c3] ser
  show ?thesis
    by (simp add: l1 signalOf_def)
qed

end
